theory Spec2Isabelle
  imports Main "HOL-Library.AList"
begin

section \<open>Data model of the client (src/src/client.ts)\<close>

text \<open>
  The library is an HTTP client around a middleware pipeline. A handler receives the
  context of the call in flight and a continuation \<open>next\<close>; both are asynchronous. The
  embedding is sequential: a call is one chain of awaits, so a promise is modelled by its
  settled outcome. A promise that never settles (an endless retry loop, a transport that
  never answers) is the value \<open>None\<close>.
\<close>

subsection \<open>Errors\<close>

text \<open>
  A rejection carries the value that was thrown. \<open>ErrorObj c m\<close> is an instance of a
  class whose constructor is named \<open>c\<close>, with message \<open>m\<close>: cross-fetch under Node
  (node-fetch) rejects an aborted request with an instance of a class named AbortError,
  a native fetch with a DOMException whose \<open>name\<close> property is AbortError.
  \<open>BoomError s\<close> is what \<^verbatim>\<open>new Boom.Boom(undefined, { statusCode: s })\<close> builds
  (@hapi/boom is an external package: only the status code it carries is modelled).
  JavaScript can throw any value: \<open>Nullish\<close> is a rejection with null or undefined,
  which have no properties, so reading \<open>constructor\<close> from them throws.

  Modelled from the spec: the class TimeoutError is imported from ./errors, which is not
  among the sources; the spec calls it a distinct, canonical timeout kind, so it is one
  constructor without arguments.
\<close>

datatype js_error =
    ErrorObj string string
  | TypeError string
  | TimeoutError
  | BoomError int
  | Nullish

text \<open>\<open>e.constructor.name\<close>, where \<open>None\<close> is the TypeError of reading a property of null.\<close>

fun constructor_name :: "js_error \<Rightarrow> string option" where
  "constructor_name (ErrorObj c m) = Some c"
| "constructor_name (TypeError m) = Some ''TypeError''"
| "constructor_name TimeoutError = Some ''TimeoutError''"
| "constructor_name (BoomError s) = Some ''Boom''"
| "constructor_name Nullish = None"

subsection \<open>Requests, responses, the context\<close>

datatype json =
    JNull
  | JBool bool
  | JNum int
  | JStr string
  | JArr "json list"
  | JObj "(string \<times> json) list"

type_synonym header_list = "(string \<times> string) list"

text \<open>An AbortSignal is known by the AbortController it belongs to.\<close>

datatype abort_signal = Signal nat

text \<open>
  \<open>HeadersInit\<close> is a plain object, an array of name and value pairs, or a Headers
  instance. The three carry the same headers and differ under the object spread of
  postJson.
\<close>

datatype headers_init =
    HeadersObject header_list
  | HeadersArray header_list
  | HeadersInstance header_list

text \<open>The fields of RequestInit that the library reads or writes.\<close>

record request_init =
  init_method :: "string option"
  init_headers :: "headers_init option"
  init_body :: "string option"
  init_signal :: "abort_signal option"

record oak_request =
  input :: string
  init :: request_init

record oak_response =
  status :: int
  headers :: header_list
  data :: json
  raw :: "string option"

record oak_context =
  req :: oak_request
  res :: "oak_response option"
  error :: "js_error option"

subsection \<open>The world a call runs in\<close>

text \<open>
  Besides the context of the call in flight, the world holds what the JavaScript runtime
  keeps: the timers armed by setTimeout (identifier, delay, and the AbortController the
  callback aborts), the counters that make timer and controller identities fresh, and the
  controllers already aborted. \<open>log\<close> is an observation trace: no function of the
  library reads or writes it; instrumented handlers append to it so that orderings and
  invocation counts can be stated.
\<close>

datatype event =
    Mark string
  | Downstream "js_error + oak_response option"
  | Decide nat js_error

record world =
  ctx :: oak_context
  timers :: "(nat \<times> nat \<times> nat) list"
  next_timer :: nat
  next_controller :: nat
  aborted :: "nat list"
  log :: "event list"

text \<open>
  \<open>OakNext = () => Promise<void | OakResponse>\<close>: a settled promise is either a
  rejection (\<open>Inl\<close>) or a value (\<open>Inr\<close>, where \<open>None\<close> is undefined), with the world
  it leaves.
\<close>

type_synonym outcome = "js_error + oak_response option"
type_synonym promise = "(outcome \<times> world) option"
type_synonym oak_next = "world \<Rightarrow> promise"
type_synonym oak_handler = "oak_next \<Rightarrow> world \<Rightarrow> promise"

section \<open>The composer (compose)\<close>

text \<open>
  compose is called from JavaScript, so its argument may be any value: an array or
  not, with entries that are functions or not. \<open>JSOther truthy\<close> is a value that is
  not a function; the flag says whether it is truthy (an object, a non-empty string) or
  falsy (undefined, null, 0).
\<close>

datatype js_value = JSFunction oak_handler | JSOther bool

datatype js_arg = JSArray "js_value list" | JSNotArray

fun typeof :: "js_value \<Rightarrow> string" where
  "typeof (JSFunction h) = ''function''"
| "typeof (JSOther truthy) = (if truthy then ''object'' else ''undefined'')"

text \<open>The loop \<^verbatim>\<open>for (const fn of middleware)\<close>: the first entry that is not a function throws.\<close>

primrec check_entries :: "js_value list \<Rightarrow> js_error option" where
  "check_entries [] = None"
| "check_entries (fn # rest) =
     (if typeof fn \<noteq> ''function''
      then Some (TypeError ''Middleware must be composed of functions!'')
      else check_entries rest)"

text \<open>
  \<open>dispatch(i)\<close>: the handler at index \<open>i\<close> is called with \<open>dispatch(i + 1)\<close> as its
  next; at the end of the array the caller's \<open>next\<close> takes its place, and a missing
  (falsy) function resolves with undefined. Calling a value that is not a function
  throws a TypeError; a synchronous throw becomes a rejection, which is the same
  outcome here.
\<close>

function dispatch :: "js_value list \<Rightarrow> oak_next option \<Rightarrow> nat \<Rightarrow> oak_next" where
  "dispatch middleware nxt i =
     (if i = length middleware then
        (case nxt of
           None \<Rightarrow> (\<lambda>w. Some (Inr None, w))
         | Some fn \<Rightarrow> fn)
      else if i < length middleware then
        (case middleware ! i of
           JSFunction fn \<Rightarrow> fn (dispatch middleware nxt (i + 1))
         | JSOther truthy \<Rightarrow>
             if \<not> truthy then (\<lambda>w. Some (Inr None, w))
             else (\<lambda>w. Some (Inl (TypeError ''fn is not a function''), w)))
      else (\<lambda>w. Some (Inr None, w)))"
  by pat_completeness auto
termination
  by (relation "measure (\<lambda>(middleware, nxt, i). length middleware - i)") auto

declare dispatch.simps [simp del]

definition compose :: "js_arg \<Rightarrow> js_error + (oak_next option \<Rightarrow> oak_next)" where
  "compose arg =
     (case arg of
        JSNotArray \<Rightarrow> Inl (TypeError ''Middleware stack must be an array!'')
      | JSArray middleware \<Rightarrow>
          (case check_entries middleware of
             Some e \<Rightarrow> Inl e
           | None \<Rightarrow> Inr (\<lambda>nxt. dispatch middleware nxt 0)))"

section \<open>The runtime services the middleware uses\<close>

text \<open>
  \<open>new AbortController()\<close> makes a controller with a fresh identity;
  \<open>setTimeout(() => controller.abort(), ms)\<close> arms a timer with a fresh identifier;
  \<open>clearTimeout(id)\<close> disarms it. A timer can fire only while it is armed: firing
  runs the callback, which aborts the controller.
\<close>

definition new_AbortController :: "world \<Rightarrow> nat \<times> world" where
  "new_AbortController w =
     (next_controller w, w\<lparr>next_controller := next_controller w + 1\<rparr>)"

definition setTimeout :: "nat \<Rightarrow> nat \<Rightarrow> world \<Rightarrow> nat \<times> world" where
  "setTimeout controller ms w =
     (next_timer w,
      w\<lparr>timers := timers w @ [(next_timer w, ms, controller)],
        next_timer := next_timer w + 1\<rparr>)"

definition clearTimeout :: "nat \<Rightarrow> world \<Rightarrow> world" where
  "clearTimeout timeoutId w =
     w\<lparr>timers := filter (\<lambda>t. fst t \<noteq> timeoutId) (timers w)\<rparr>"

definition armed :: "nat \<Rightarrow> world \<Rightarrow> bool" where
  "armed timeoutId w = (timeoutId \<in> fst ` set (timers w))"

definition fire_timer :: "nat \<Rightarrow> world \<Rightarrow> world" where
  "fire_timer timeoutId w =
     (case map_of (timers w) timeoutId of
        None \<Rightarrow> w
      | Some (ms, controller) \<Rightarrow>
          (clearTimeout timeoutId w)\<lparr>aborted := controller # aborted w\<rparr>)"

section \<open>The middleware\<close>

definition urlPrefix :: "string \<Rightarrow> oak_handler" where
  "urlPrefix prefix nxt w =
     nxt (w\<lparr>ctx := (ctx w)\<lparr>req := (req (ctx w))\<lparr>input := prefix @ input (req (ctx w))\<rparr>\<rparr>\<rparr>)"

text \<open>
  timeout: before the \<open>try\<close> block the handler makes its AbortController, arms the
  timer and stores the controller's signal on the request options (\<open>timeout_setup\<close>).
  It then awaits \<open>next()\<close> and returns nothing of its own; an error of downstream
  whose constructor is named AbortError is replaced by a TimeoutError; reading the
  constructor of a rejection with null or undefined throws inside the \<open>catch\<close> block;
  the \<open>finally\<close> block clears the timer on each way out.
\<close>

definition timeout_setup :: "nat \<Rightarrow> world \<Rightarrow> nat \<times> world" where
  "timeout_setup ms w =
     (let (controller, w1) = new_AbortController w;
          (timeoutId, w2) = setTimeout controller ms w1
      in (timeoutId,
          w2\<lparr>ctx := (ctx w2)\<lparr>req := (req (ctx w2))
               \<lparr>init := (init (req (ctx w2)))\<lparr>init_signal := Some (Signal controller)\<rparr>\<rparr>\<rparr>\<rparr>))"

definition timeout :: "nat \<Rightarrow> oak_handler" where
  "timeout ms nxt w =
     (let (timeoutId, w3) = timeout_setup ms w
      in case nxt w3 of
           None \<Rightarrow> None
         | Some (Inr v, w4) \<Rightarrow> Some (Inr None, clearTimeout timeoutId w4)
         | Some (Inl e, w4) \<Rightarrow>
             (case constructor_name e of
                None \<Rightarrow>
                  Some (Inl (TypeError ''Cannot read properties of undefined (reading constructor)''),
                        clearTimeout timeoutId w4)
              | Some name \<Rightarrow>
                  if name = ''AbortError''
                  then Some (Inl TimeoutError, clearTimeout timeoutId w4)
                  else Some (Inl e, clearTimeout timeoutId w4)))"

text \<open>
  retry: \<open>RetryHandler = (ctx, attempt, e) => boolean | Promise<boolean>\<close>. The decision
  function may change the context, may throw, and may never settle. The loop has no
  bound of its own, so it is a partial function: \<open>None\<close> is a loop that never ends.
  \<open>attempt\<close> is the counter before \<^verbatim>\<open>attempt += 1\<close>.
\<close>

type_synonym retry_handler = "nat \<Rightarrow> js_error \<Rightarrow> world \<Rightarrow> ((js_error + bool) \<times> world) option"

partial_function (option) retry_loop ::
  "retry_handler \<Rightarrow> oak_next \<Rightarrow> nat \<Rightarrow> world \<Rightarrow> (outcome \<times> world) option" where
  "retry_loop handler nxt attempt w =
     (case nxt w of
        None \<Rightarrow> None
      | Some (Inr v, w1) \<Rightarrow> Some (Inr v, w1)
      | Some (Inl e, w1) \<Rightarrow>
          (case handler (attempt + 1) e w1 of
             None \<Rightarrow> None
           | Some (Inl e', w2) \<Rightarrow> Some (Inl e', w2)
           | Some (Inr canRetry, w2) \<Rightarrow>
               if \<not> canRetry then Some (Inl e, w2)
               else retry_loop handler nxt (attempt + 1) w2))"

definition retry :: "retry_handler \<Rightarrow> oak_handler" where
  "retry handler nxt w = retry_loop handler nxt 0 w"

text \<open>
  throwErrors: \<^verbatim>\<open>const { status } = ctx.res!\<close> reads the response without a check, so
  an absent response is a TypeError of the runtime.
\<close>

definition throwErrors :: "oak_handler" where
  "throwErrors nxt w =
     (case nxt w of
        None \<Rightarrow> None
      | Some (Inl e, w1) \<Rightarrow> Some (Inl e, w1)
      | Some (Inr v, w1) \<Rightarrow>
          (case res (ctx w1) of
             None \<Rightarrow>
               Some (Inl (TypeError ''Cannot destructure property status of ctx.res as it is undefined.''), w1)
           | Some r \<Rightarrow>
               if status r \<ge> 400 then Some (Inl (BoomError (status r)), w1)
               else Some (Inr None, w1)))"

section \<open>The client (OakClient)\<close>

text \<open>
  The transport is injected (\<open>fetchImplementation\<close>). Its reply has a status, headers
  (a Headers object: one value per lower-cased name) and two body accessors, each of
  which may reject: \<open>json()\<close> and \<open>text()\<close>.
\<close>

record transport_response =
  rsp_status :: int
  rsp_headers :: header_list
  rsp_json :: "js_error + json"
  rsp_text :: "js_error + string"

type_synonym transport =
  "string \<Rightarrow> request_init \<Rightarrow> world \<Rightarrow> ((js_error + transport_response) \<times> world) option"

record oak_client =
  fetchImplementation :: transport
  middleware :: "js_value list"









definition empty_init :: request_init where
  "empty_init = \<lparr>init_method = None, init_headers = None, init_body = None, init_signal = None\<rparr>"








section \<open>Notions used to state the properties\<close>

subsection \<open>Layers of the onion\<close>

text \<open>
  A handler that calls its next exactly once has logic before the call (\<open>enter\<close>, which
  cannot fail, or next would not be called) and logic after it (\<open>leave\<close>, which sees how
  downstream settled and settles the handler).
\<close>

definition onion :: "(world \<Rightarrow> world) \<Rightarrow> (outcome \<times> world \<Rightarrow> promise) \<Rightarrow> oak_handler" where
  "onion enter leave nxt w = (case nxt (enter w) of None \<Rightarrow> None | Some r \<Rightarrow> leave r)"

subsection \<open>Observing a retry\<close>

text \<open>
  \<open>probe f\<close> is the downstream chain \<open>f\<close> with each invocation recorded in the trace,
  together with how it settled; \<open>logged d\<close> is the decision function \<open>d\<close> with each call
  recorded, together with the attempt number and the error it was given.
\<close>

definition probe :: "oak_next \<Rightarrow> oak_next" where
  "probe f w =
     (case f w of
        None \<Rightarrow> None
      | Some (r, w1) \<Rightarrow> Some (r, w1\<lparr>log := log w1 @ [Downstream r]\<rparr>))"

definition logged :: "retry_handler \<Rightarrow> retry_handler" where
  "logged d attempt e w = d attempt e (w\<lparr>log := log w @ [Decide attempt e]\<rparr>)"

text \<open>
  \<open>allows N d\<close>: the decision function answers true for the attempts \<open>1..N-1\<close> and false
  for attempt \<open>N\<close>, whatever the error and the world, and does not write the trace.
\<close>

definition allows :: "nat \<Rightarrow> retry_handler \<Rightarrow> bool" where
  "allows N d =
     (\<forall>k e w. 1 \<le> k \<and> k \<le> N \<longrightarrow>
        (\<exists>w1. d k e w = Some (Inr (k < N), w1) \<and> log w1 = log w))"

text \<open>
  The number of invocations of downstream that the trace records, and a downstream chain
  that settles on every invocation and rejects on each of its first \<open>M\<close> invocations.
\<close>

fun is_invocation :: "event \<Rightarrow> bool" where
  "is_invocation (Downstream r) = True"
| "is_invocation (Mark m) = False"
| "is_invocation (Decide a e) = False"

definition invocations :: "world \<Rightarrow> nat" where
  "invocations w = length (filter is_invocation (log w))"

definition fails_first :: "nat \<Rightarrow> oak_next \<Rightarrow> bool" where
  "fails_first M f =
     (\<forall>w. \<exists>r w1. f w = Some (r, w1) \<and> log w1 = log w \<and>
             (invocations w < M \<longrightarrow> (\<exists>e. r = Inl e)))"

text \<open>
  The trace of the invocations that failed with the errors \<open>es\<close>, the counter being \<open>k\<close>
  before the first of them: each invocation is followed by the decision on it, with the
  attempt numbers \<open>k + 1, k + 2, \<dots>\<close>; and the trace of the last invocation, which the
  decision function is asked about only when it failed.
\<close>

definition attempts_trace :: "nat \<Rightarrow> js_error list \<Rightarrow> event list" where
  "attempts_trace k es =
     concat (map (\<lambda>(a, e). [Downstream (Inl e), Decide a e])
               (zip [Suc k..<Suc k + length es] es))"

definition last_trace :: "nat \<Rightarrow> outcome \<Rightarrow> event list" where
  "last_trace N r =
     (case r of
        Inl e \<Rightarrow> [Downstream (Inl e), Decide N e]
      | Inr v \<Rightarrow> [Downstream (Inr v)])"

subsection \<open>Observable effects of an invocation\<close>

text \<open>
  Two invocations have the same observable effect when both never settle, or both settle
  the same way and leave the same context. A handler holds no shared mutable state when
  contexts alone decide what it does: given continuations that agree on equal contexts,
  it agrees on equal contexts, whatever else the two worlds hold.
\<close>

definition same_effect :: "promise \<Rightarrow> promise \<Rightarrow> bool" where
  "same_effect p q =
     (case p of
        None \<Rightarrow> q = None
      | Some (r, w) \<Rightarrow> (case q of None \<Rightarrow> False | Some (r', w') \<Rightarrow> r = r' \<and> ctx w = ctx w'))"

definition agree :: "oak_next \<Rightarrow> oak_next \<Rightarrow> bool" where
  "agree n n' = (\<forall>w w'. ctx w = ctx w' \<longrightarrow> same_effect (n w) (n' w'))"

definition stateless :: "oak_handler \<Rightarrow> bool" where
  "stateless h = (\<forall>n n'. agree n n' \<longrightarrow> agree (h n) (h n'))"

subsection \<open>Normalized responses\<close>





subsection \<open>Concrete calls\<close>

definition world0 :: world where
  "world0 =
     \<lparr>ctx = \<lparr>req = \<lparr>input = ''/resource'', init = empty_init\<rparr>, res = None, error = None\<rparr>,
      timers = [], next_timer = 0, next_controller = 0, aborted = [], log = []\<rparr>"

definition response0 :: oak_response where
  "response0 = \<lparr>status = 200, headers = [], data = JObj [], raw = None\<rparr>"

definition not_found :: oak_response where
  "not_found = \<lparr>status = 404, headers = [], data = JObj [], raw = None\<rparr>"

text \<open>A downstream chain that stores a response on the context and also returns it.\<close>

definition responding :: "oak_response \<Rightarrow> oak_next" where
  "responding r w = Some (Inr (Some r), w\<lparr>ctx := (ctx w)\<lparr>res := Some r\<rparr>\<rparr>)"

definition failing :: "js_error \<Rightarrow> oak_next" where
  "failing e w = Some (Inl e, w)"

definition abort_error :: js_error where
  "abort_error = ErrorObj ''AbortError'' ''The user aborted a request.''"

definition network_error :: js_error where
  "network_error = ErrorObj ''FetchError'' ''request failed''"

text \<open>A handler that returns without calling next.\<close>

definition short_circuit :: oak_handler where
  "short_circuit nxt w = Some (Inr None, w)"

text \<open>
  A downstream chain that throws on its first \<open>M\<close> invocations and then answers, as the
  handler of the retry test does.
\<close>

definition flaky :: "nat \<Rightarrow> oak_next" where
  "flaky M w =
     (if invocations w < M then Some (Inl network_error, w) else responding response0 w)"

text \<open>The decision function \<^verbatim>\<open>(_, attempt) => attempt < N\<close>.\<close>

definition below :: "nat \<Rightarrow> retry_handler" where
  "below N attempt e w = Some (Inr (attempt < N), w)"

text \<open>Handlers that append a marker before and after \<open>next()\<close>.\<close>

definition mark :: "string \<Rightarrow> world \<Rightarrow> world" where
  "mark m w = w\<lparr>log := log w @ [Mark m]\<rparr>"

definition layer :: "string \<Rightarrow> (world \<Rightarrow> world) \<times> (outcome \<times> world \<Rightarrow> promise)" where
  "layer k = (mark (k @ ''pre''), \<lambda>(r, w). Some (r, mark (k @ ''post'') w))"

definition transport_call :: oak_next where
  "transport_call w = Some (Inr None, mark ''call'' w)"








text \<open>
  A downstream call that outlasts the deadline: the timer whose callback aborts the
  controller of the request's signal fires, and the transport rejects with its abort
  error \<open>e\<close>. Without such a timer the call never settles.
\<close>

definition deadline_abort :: "js_error \<Rightarrow> oak_next" where
  "deadline_abort e w =
     (case init_signal (init (req (ctx w))) of
        None \<Rightarrow> None
      | Some (Signal controller) \<Rightarrow>
          (case find (\<lambda>t. snd (snd t) = controller) (timers w) of
             None \<Rightarrow> None
           | Some t \<Rightarrow> Some (Inl e, fire_timer (fst t) w)))"

text \<open>The abort error of a native fetch.\<close>

definition dom_abort :: js_error where
  "dom_abort = ErrorObj ''DOMException'' ''This operation was aborted''"

text \<open>A call whose options carry a cancellation signal of the caller's.\<close>

definition signalled_world :: world where
  "signalled_world =
     world0\<lparr>ctx := \<lparr>req = \<lparr>input = ''/resource'',
                               init = empty_init\<lparr>init_signal := Some (Signal 99)\<rparr>\<rparr>,
                        res = None, error = None\<rparr>\<rparr>"

section \<open>The composer: validation and ordering\<close>

lemma check_entries_functions: "check_entries (map JSFunction hs) = None"
  by (induction hs) simp_all

lemma check_entries_bad:
  "\<exists>v \<in> set vs. typeof v \<noteq> ''function'' \<Longrightarrow>
   check_entries vs = Some (TypeError ''Middleware must be composed of functions!'')"
  by (induction vs) auto

lemma compose_functions:
  "compose (JSArray (map JSFunction hs)) = Inr (\<lambda>nxt. dispatch (map JSFunction hs) nxt 0)"
  by (simp add: compose_def check_entries_functions)

text \<open>The cursor of a longer array walks the rest of it as the cursor of the rest does.\<close>

lemma dispatch_Cons: "dispatch (v # vs) nxt (Suc i) = dispatch vs nxt i"
proof (induction "length vs - i" arbitrary: i)
  case 0
  then show ?case
    by (subst dispatch.simps, subst (2) dispatch.simps) auto
next
  case (Suc n)
  then have lt: "i < length vs" by simp
  have "dispatch (v # vs) nxt (Suc (Suc i)) = dispatch vs nxt (Suc i)"
    using Suc by simp
  then show ?case
    using lt by (subst dispatch.simps, subst (2) dispatch.simps) (simp split: js_value.splits)
qed

lemma dispatch_Nil: "dispatch [] (Some fn) 0 = fn"
  by (subst dispatch.simps) simp

lemma dispatch_Nil_None: "dispatch [] None 0 = (\<lambda>w. Some (Inr None, w))"
  by (subst dispatch.simps) simp

lemma dispatch_handler: "dispatch (JSFunction h # vs) nxt 0 = h (dispatch vs nxt 0)"
  by (subst dispatch.simps) (simp add: dispatch_Cons)

lemma onion_apply: "onion enter leave nxt w = Option.bind (nxt (enter w)) leave"
  by (simp add: onion_def Option.bind_def split: option.splits)

lemma dispatch_onion:
  "dispatch (map (\<lambda>(enter, leave). JSFunction (onion enter leave)) layers) (Some terminal) 0 w =
   fold (\<lambda>(enter, leave) p. Option.bind p leave) (rev layers)
     (terminal (fold (\<lambda>(enter, leave). enter) layers w))"
proof (induction layers arbitrary: w)
  case Nil
  show ?case by (simp add: dispatch_Nil)
next
  case (Cons l ls)
  obtain enter leave where l: "l = (enter, leave)" by (cases l)
  let ?rest = "dispatch (map (\<lambda>(enter, leave). JSFunction (onion enter leave)) ls) (Some terminal) 0"
  have "dispatch (map (\<lambda>(enter, leave). JSFunction (onion enter leave)) (l # ls)) (Some terminal) 0 w
        = onion enter leave ?rest w"
    by (simp add: l dispatch_handler)
  also have "\<dots> = Option.bind (?rest (enter w)) leave"
    by (rule onion_apply)
  also have "\<dots> = Option.bind (fold (\<lambda>(enter, leave) p. Option.bind p leave) (rev ls)
                 (terminal (fold (\<lambda>(enter, leave). enter) ls (enter w)))) leave"
    by (simp only: Cons.IH)
  finally show ?case
    by (simp add: l)
qed

text \<open>
  C1 (onion ordering). For every sequence of handlers that each call their next exactly
  once, the pipeline made by compose runs the logic the handlers have before the call in
  registration order, then the terminal continuation, then the logic they have after the
  call in reverse registration order: the pipeline is the terminal continuation applied
  to the world that the \<open>enter\<close> steps, folded over the sequence, have produced, followed
  by the \<open>leave\<close> steps folded over the reversed sequence.
\<close>

theorem onion_ordering:
  "\<exists>run. compose (JSArray (map (\<lambda>(enter, leave). JSFunction (onion enter leave)) layers)) = Inr run
     \<and> (\<forall>w. run (Some terminal) w =
          fold (\<lambda>(enter, leave) p. Option.bind p leave) (rev layers)
            (terminal (fold (\<lambda>(enter, leave). enter) layers w)))"
proof -
  have "check_entries (map (\<lambda>(enter, leave). JSFunction (onion enter leave)) layers) = None"
    by (induction layers) auto
  then show ?thesis
    by (simp add: compose_def dispatch_onion)
qed

text \<open>
  The chain of the specification: three handlers that append a marker before and after
  \<open>next()\<close> leave the markers in onion order around the transport call.
\<close>

theorem onion_ordering_witness:
  "\<exists>run. compose (JSArray (map (\<lambda>(enter, leave). JSFunction (onion enter leave))
                              [layer ''1'', layer ''2'', layer ''3''])) = Inr run
     \<and> map_option (\<lambda>(r, w). log w) (run (Some transport_call) world0) =
         Some [Mark ''1pre'', Mark ''2pre'', Mark ''3pre'', Mark ''call'',
               Mark ''3post'', Mark ''2post'', Mark ''1post'']"
proof -
  obtain run where
    c: "compose (JSArray (map (\<lambda>(enter, leave). JSFunction (onion enter leave))
                            [layer ''1'', layer ''2'', layer ''3''])) = Inr run"
    and r: "\<forall>w. run (Some transport_call) w =
          fold (\<lambda>(enter, leave) p. Option.bind p leave) (rev [layer ''1'', layer ''2'', layer ''3''])
            (transport_call (fold (\<lambda>(enter, leave). enter) [layer ''1'', layer ''2'', layer ''3''] w))"
    using onion_ordering [of "[layer ''1'', layer ''2'', layer ''3'']" transport_call] by blast
  have "map_option (\<lambda>(r, w). log w) (run (Some transport_call) world0) =
         Some [Mark ''1pre'', Mark ''2pre'', Mark ''3pre'', Mark ''call'',
               Mark ''3post'', Mark ''2post'', Mark ''1post'']"
    by (simp add: r layer_def mark_def transport_call_def world0_def)
  with c show ?thesis by blast
qed

text \<open>
  C5 (composer validation). compose throws by itself, before any handler runs (its
  result is an error of compose, not a settled promise), when its argument is not an
  array or when an entry of the array is not callable; for every array of callables it
  returns a pipeline without throwing. The error is a TypeError in both cases.
\<close>

theorem compose_validation:
  "compose JSNotArray = Inl (TypeError ''Middleware stack must be an array!'')
   \<and> ((\<exists>v \<in> set vs. typeof v \<noteq> ''function'') \<longrightarrow>
        compose (JSArray vs) = Inl (TypeError ''Middleware must be composed of functions!''))
   \<and> (\<exists>run. compose (JSArray (map JSFunction hs)) = Inr run)"
  by (simp add: compose_def check_entries_functions check_entries_bad)

theorem compose_validation_witness:
  "(\<exists>v \<in> set [JSFunction throwErrors, JSOther False]. typeof v \<noteq> ''function'')
   \<and> compose (JSArray [JSFunction throwErrors, JSOther False])
       = Inl (TypeError ''Middleware must be composed of functions!'')
   \<and> (\<exists>run. compose (JSArray (map JSFunction [throwErrors, urlPrefix ''http://host''])) = Inr run)"
  using compose_validation [of "[JSFunction throwErrors, JSOther False]"
                               "[throwErrors, urlPrefix ''http://host'']"]
  by simp

section \<open>The timeout middleware\<close>

lemma timeout_setup_eq:
  "timeout_setup ms w =
     (next_timer w,
      w\<lparr>ctx := (ctx w)\<lparr>req := (req (ctx w))
            \<lparr>init := (init (req (ctx w)))\<lparr>init_signal := Some (Signal (next_controller w))\<rparr>\<rparr>\<rparr>,
        timers := timers w @ [(next_timer w, ms, next_controller w)],
        next_timer := next_timer w + 1,
        next_controller := next_controller w + 1\<rparr>)"
  by (simp add: timeout_setup_def new_AbortController_def setTimeout_def)

lemma timeout_settled:
  "timeout_setup ms w = (tid, w3) \<Longrightarrow> nxt w3 = Some (r, w4) \<Longrightarrow>
   timeout ms nxt w =
     Some (case r of
             Inl e \<Rightarrow>
               (case constructor_name e of
                  None \<Rightarrow> Inl (TypeError ''Cannot read properties of undefined (reading constructor)'')
                | Some name \<Rightarrow> if name = ''AbortError'' then Inl TimeoutError else Inl e)
           | Inr v \<Rightarrow> Inr None,
           clearTimeout tid w4)"
  by (simp add: timeout_def split: sum.splits option.splits)

lemma timeout_pending:
  "timeout_setup ms w = (tid, w3) \<Longrightarrow> nxt w3 = None \<Longrightarrow> timeout ms nxt w = None"
  by (simp add: timeout_def)

lemma ctx_clearTimeout: "ctx (clearTimeout tid w) = ctx w"
  by (simp add: clearTimeout_def)

lemma not_armed_clearTimeout: "\<not> armed tid (clearTimeout tid w)"
  by (auto simp: armed_def clearTimeout_def)

lemma fire_cleared: "fire_timer tid (clearTimeout tid w) = clearTimeout tid w"
proof -
  have "tid \<notin> fst ` set (timers (clearTimeout tid w))"
    by (auto simp: clearTimeout_def)
  then have "map_of (timers (clearTimeout tid w)) tid = None"
    by (simp add: map_of_eq_None_iff)
  then show ?thesis
    by (simp add: fire_timer_def)
qed

lemma armed_setup: "timeout_setup ms w = (tid, w3) \<Longrightarrow> armed tid w3"
  by (auto simp: timeout_setup_eq armed_def)

lemma timeout_setup_world0:
  "timeout_setup 50 world0 = (0, snd (timeout_setup 50 world0))"
  by (simp add: timeout_setup_eq world0_def)

lemma fire_setup_world0:
  "fire_timer 0 (snd (timeout_setup 50 world0)) =
     (snd (timeout_setup 50 world0))\<lparr>timers := [], aborted := [0]\<rparr>"
  by (simp add: timeout_setup_eq world0_def fire_timer_def clearTimeout_def)

lemma deadline_abort_world0:
  "deadline_abort e (snd (timeout_setup 50 world0))
     = Some (Inl e, fire_timer 0 (snd (timeout_setup 50 world0)))"
  by (simp add: deadline_abort_def timeout_setup_eq world0_def empty_init_def)

text \<open>
  C3 (timeout reclassification), as the code has it. For every invocation of the
  \<open>timeout(ms)\<close> handler in which downstream settles: if downstream rejects with an
  error object whose constructor is named AbortError, whether the deadline has fired or
  not, the handler throws a TimeoutError; if downstream resolves, the handler resolves
  with no value of its own (undefined), whatever value downstream returned, and the
  context is as downstream left it; every error object of downstream whose constructor
  has another name is thrown again unmodified.
\<close>

theorem timeout_reclassifies:
  assumes "timeout_setup ms w = (tid, w3)" and "nxt w3 = Some (r, w4)"
  shows "\<exists>r' w'. timeout ms nxt w = Some (r', w')
           \<and> (\<forall>e. r = Inl e \<and> constructor_name e = Some ''AbortError'' \<longrightarrow> r' = Inl TimeoutError)
           \<and> (\<forall>v. r = Inr v \<longrightarrow> r' = Inr None \<and> ctx w' = ctx w4)
           \<and> (\<forall>e name. r = Inl e \<and> constructor_name e = Some name \<and> name \<noteq> ''AbortError''
                  \<longrightarrow> r' = Inl e)"
  using assms timeout_settled [of ms w tid w3 nxt r w4] by (auto simp: ctx_clearTimeout)

text \<open>
  A downstream call that outlasts the deadline, with the transport of cross-fetch under
  Node: the timer fires, the controller is aborted, the transport rejects with its
  AbortError, and the handler throws a TimeoutError.
\<close>

theorem timeout_reclassifies_witness:
  "timeout_setup 50 world0 = (0, snd (timeout_setup 50 world0))
   \<and> deadline_abort abort_error (snd (timeout_setup 50 world0))
       = Some (Inl abort_error, fire_timer 0 (snd (timeout_setup 50 world0)))
   \<and> aborted (fire_timer 0 (snd (timeout_setup 50 world0))) = [0]
   \<and> constructor_name abort_error = Some ''AbortError''
   \<and> (\<exists>w'. timeout 50 (deadline_abort abort_error) world0 = Some (Inl TimeoutError, w'))"
proof -
  have s: "timeout_setup 50 world0 = (0, snd (timeout_setup 50 world0))"
    by (rule timeout_setup_world0)
  have f: "deadline_abort abort_error (snd (timeout_setup 50 world0))
             = Some (Inl abort_error, fire_timer 0 (snd (timeout_setup 50 world0)))"
    by (rule deadline_abort_world0)
  have a: "aborted (fire_timer 0 (snd (timeout_setup 50 world0))) = [0]"
    by (simp add: fire_setup_world0)
  have n: "constructor_name abort_error = Some ''AbortError''"
    by (simp add: abort_error_def)
  from timeout_reclassifies [OF s, of "deadline_abort abort_error" "Inl abort_error", OF f] n
  have "\<exists>w'. timeout 50 (deadline_abort abort_error) world0 = Some (Inl TimeoutError, w')"
    by auto
  with s f a n show ?thesis by blast
qed

text \<open>
  The claim as stated fails in four ways. Downstream resolves with a response, and the
  handler resolves with undefined. The deadline fires (the controller is aborted) and
  the transport rejects with the DOMException of a native fetch: the caller observes
  that raw abort error. Downstream rejects with an AbortError while no deadline has
  fired (no controller is aborted): the error is not thrown again unmodified, it is
  replaced by a TimeoutError. Downstream rejects with null or undefined: the handler
  rejects with a TypeError instead.
\<close>

theorem timeout_claim_fails:
  "map_option fst (responding response0 (snd (timeout_setup 50 world0)))
     = Some (Inr (Some response0))
   \<and> map_option fst (timeout 50 (responding response0) world0) = Some (Inr None)
   \<and> map_option fst (timeout 50 (deadline_abort dom_abort) world0) = Some (Inl dom_abort)
   \<and> map_option (aborted \<circ> snd) (timeout 50 (deadline_abort dom_abort) world0) = Some [0]
   \<and> map_option fst (timeout 50 (failing abort_error) world0) = Some (Inl TimeoutError)
   \<and> map_option (aborted \<circ> snd) (timeout 50 (failing abort_error) world0) = Some []
   \<and> map_option fst (timeout 50 (failing Nullish) world0)
       = Some (Inl (TypeError ''Cannot read properties of undefined (reading constructor)''))"
proof -
  note s = timeout_setup_world0
  have 1: "map_option fst (responding response0 (snd (timeout_setup 50 world0)))
             = Some (Inr (Some response0))"
    by (simp add: responding_def)
  have 2: "map_option fst (timeout 50 (responding response0) world0) = Some (Inr None)"
    using timeout_settled [OF s, of "responding response0" "Inr (Some response0)"]
    by (simp add: responding_def)
  have d: "timeout 50 (deadline_abort dom_abort) world0 =
             Some (Inl dom_abort, clearTimeout 0 (fire_timer 0 (snd (timeout_setup 50 world0))))"
    using timeout_settled [OF s, of "deadline_abort dom_abort" "Inl dom_abort", OF deadline_abort_world0]
    by (simp add: dom_abort_def)
  have 3: "map_option fst (timeout 50 (deadline_abort dom_abort) world0) = Some (Inl dom_abort)"
    by (simp add: d)
  have 4: "map_option (aborted \<circ> snd) (timeout 50 (deadline_abort dom_abort) world0) = Some [0]"
    unfolding d by (simp add: fire_setup_world0 clearTimeout_def)
  have a: "timeout 50 (failing abort_error) world0 =
             Some (Inl TimeoutError, clearTimeout 0 (snd (timeout_setup 50 world0)))"
    using timeout_settled [OF s, of "failing abort_error" "Inl abort_error"]
    by (simp add: failing_def abort_error_def)
  have 5: "map_option fst (timeout 50 (failing abort_error) world0) = Some (Inl TimeoutError)"
    by (simp add: a)
  have 6: "map_option (aborted \<circ> snd) (timeout 50 (failing abort_error) world0) = Some []"
    unfolding a by (simp add: clearTimeout_def timeout_setup_eq world0_def)
  have 7: "map_option fst (timeout 50 (failing Nullish) world0)
             = Some (Inl (TypeError ''Cannot read properties of undefined (reading constructor)''))"
    using timeout_settled [OF s, of "failing Nullish" "Inl Nullish"]
    by (simp add: failing_def)
  from 1 2 3 4 5 6 7 show ?thesis by blast
qed

text \<open>
  C7 (timer disarm on every exit path). For every invocation of the timeout handler
  in which downstream settles, whether it resolves, rejects with the abort error or
  rejects with another error, the timer that the handler armed on entry is no longer
  armed when the handler settles, so it cannot fire afterwards.
\<close>

theorem timeout_disarms:
  assumes "timeout_setup ms w = (tid, w3)" and "nxt w3 = Some (r, w4)"
  shows "armed tid w3 \<and>
         (\<exists>r' w'. timeout ms nxt w = Some (r', w') \<and> \<not> armed tid w' \<and> fire_timer tid w' = w')"
  using assms timeout_settled [of ms w tid w3 nxt r w4] armed_setup [of ms w tid w3]
  by (simp add: not_armed_clearTimeout fire_cleared)

theorem timeout_disarms_witness:
  "timeout_setup 50 world0 = (0, snd (timeout_setup 50 world0))
   \<and> failing network_error (snd (timeout_setup 50 world0))
       = Some (Inl network_error, snd (timeout_setup 50 world0))
   \<and> armed 0 (snd (timeout_setup 50 world0))
   \<and> (\<exists>r' w'. timeout 50 (failing network_error) world0 = Some (r', w')
         \<and> \<not> armed 0 w' \<and> fire_timer 0 w' = w')"
proof -
  have s: "timeout_setup 50 world0 = (0, snd (timeout_setup 50 world0))"
    by (rule timeout_setup_world0)
  have f: "failing network_error (snd (timeout_setup 50 world0))
             = Some (Inl network_error, snd (timeout_setup 50 world0))"
    by (simp add: failing_def)
  from timeout_disarms [OF s, of "failing network_error" "Inl network_error", OF f] s f
  show ?thesis by blast
qed

text \<open>
  C9 (the signal is overwritten, the rest of the context is kept). On entry the timeout
  handler stores the signal of its own new AbortController in \<open>req.init.signal\<close>,
  whatever signal the caller had put there, and changes no other field of the context:
  downstream runs in that context, and the handler settles with the context that
  downstream left.
\<close>

theorem timeout_frame:
  assumes "timeout_setup ms w = (tid, w3)"
  shows "ctx w3 = (ctx w)\<lparr>req := (req (ctx w))
            \<lparr>init := (init (req (ctx w)))\<lparr>init_signal := Some (Signal (next_controller w))\<rparr>\<rparr>\<rparr>
         \<and> (\<forall>nxt. case nxt w3 of
                None \<Rightarrow> timeout ms nxt w = None
              | Some (r, w4) \<Rightarrow> (\<exists>r' w'. timeout ms nxt w = Some (r', w') \<and> ctx w' = ctx w4))"
proof
  show "ctx w3 = (ctx w)\<lparr>req := (req (ctx w))
            \<lparr>init := (init (req (ctx w)))\<lparr>init_signal := Some (Signal (next_controller w))\<rparr>\<rparr>\<rparr>"
    using assms by (auto simp: timeout_setup_eq)
  show "\<forall>nxt. case nxt w3 of
                None \<Rightarrow> timeout ms nxt w = None
              | Some (r, w4) \<Rightarrow> (\<exists>r' w'. timeout ms nxt w = Some (r', w') \<and> ctx w' = ctx w4)"
  proof
    fix nxt
    show "case nxt w3 of
            None \<Rightarrow> timeout ms nxt w = None
          | Some (r, w4) \<Rightarrow> (\<exists>r' w'. timeout ms nxt w = Some (r', w') \<and> ctx w' = ctx w4)"
    proof (cases "nxt w3")
      case None
      then show ?thesis
        using assms timeout_pending [of ms w tid w3 nxt] by simp
    next
      case (Some p)
      obtain r w4 where p: "p = (r, w4)" by (cases p)
      show ?thesis
        using assms Some p timeout_settled [of ms w tid w3 nxt r w4]
        by (simp add: ctx_clearTimeout)
    qed
  qed
qed

theorem timeout_frame_witness:
  "timeout_setup 50 signalled_world = (0, snd (timeout_setup 50 signalled_world))
   \<and> init_signal (init (req (ctx signalled_world))) = Some (Signal 99)
   \<and> ctx (snd (timeout_setup 50 signalled_world)) =
       \<lparr>req = \<lparr>input = ''/resource'', init = empty_init\<lparr>init_signal := Some (Signal 0)\<rparr>\<rparr>,
        res = None, error = None\<rparr>"
proof -
  have s: "timeout_setup 50 signalled_world = (0, snd (timeout_setup 50 signalled_world))"
    by (simp add: timeout_setup_eq signalled_world_def world0_def)
  from timeout_frame [OF s] s show ?thesis
    by (simp add: signalled_world_def world0_def)
qed

section \<open>The error-escalation middleware\<close>

text \<open>
  C4 (error escalation thresholds). For every context whose downstream chain completes
  and leaves a response on it, throwErrors returns normally when the status of the
  response is in 200..399, and throws an error that carries exactly that status when the
  status is 400 or more.
\<close>

theorem throwErrors_thresholds:
  assumes "nxt w = Some (Inr v, w1)" and "res (ctx w1) = Some r"
  shows "(200 \<le> status r \<and> status r \<le> 399 \<longrightarrow> throwErrors nxt w = Some (Inr None, w1))
       \<and> (400 \<le> status r \<longrightarrow> throwErrors nxt w = Some (Inl (BoomError (status r)), w1))"
  using assms by (simp add: throwErrors_def)

theorem throwErrors_thresholds_witness:
  "responding not_found world0
     = Some (Inr (Some not_found), world0\<lparr>ctx := (ctx world0)\<lparr>res := Some not_found\<rparr>\<rparr>)
   \<and> res (ctx (world0\<lparr>ctx := (ctx world0)\<lparr>res := Some not_found\<rparr>\<rparr>)) = Some not_found
   \<and> 400 \<le> status not_found
   \<and> throwErrors (responding not_found) world0
       = Some (Inl (BoomError 404), world0\<lparr>ctx := (ctx world0)\<lparr>res := Some not_found\<rparr>\<rparr>)"
proof -
  let ?w1 = "world0\<lparr>ctx := (ctx world0)\<lparr>res := Some not_found\<rparr>\<rparr>"
  have n: "responding not_found world0 = Some (Inr (Some not_found), ?w1)"
    by (simp add: responding_def)
  have r: "res (ctx ?w1) = Some not_found"
    by simp
  have st: "status not_found = 404"
    by (simp add: not_found_def)
  from throwErrors_thresholds [of "responding not_found" world0 "Some not_found" ?w1 not_found, OF n r]
  have "throwErrors (responding not_found) world0 = Some (Inl (BoomError 404), ?w1)"
    by (simp add: st)
  with n r st show ?thesis by simp
qed

text \<open>
  C10 (absent response). throwErrors supposes that the response is on the context when
  \<open>next()\<close> resolves. When the handler after it returns without calling next and leaves
  the response absent, throwErrors reads the absent response and the pipeline rejects
  with a TypeError: it neither returns normally nor throws an HTTP error.
\<close>

theorem throwErrors_absent_response:
  assumes "\<forall>nxt. h nxt w = Some (Inr v, w1)" and "res (ctx w1) = None"
  shows "\<exists>run m. compose (JSArray (JSFunction throwErrors # JSFunction h # map JSFunction hs)) = Inr run
           \<and> run terminal w = Some (Inl (TypeError m), w1)"
proof -
  have "compose (JSArray (map JSFunction (throwErrors # h # hs)))
        = Inr (\<lambda>nxt. dispatch (map JSFunction (throwErrors # h # hs)) nxt 0)"
    by (rule compose_functions)
  moreover have "\<exists>m. dispatch (map JSFunction (throwErrors # h # hs)) terminal 0 w
                  = Some (Inl (TypeError m), w1)"
    using assms by (simp add: dispatch_handler throwErrors_def)
  ultimately show ?thesis by auto
qed

theorem throwErrors_absent_response_witness:
  "(\<forall>nxt. short_circuit nxt world0 = Some (Inr None, world0))
   \<and> res (ctx world0) = None
   \<and> (\<exists>run m. compose (JSArray [JSFunction throwErrors, JSFunction short_circuit]) = Inr run
         \<and> run (Some transport_call) world0 = Some (Inl (TypeError m), world0))"
proof -
  have s: "\<forall>nxt. short_circuit nxt world0 = Some (Inr None, world0)"
    by (simp add: short_circuit_def)
  have r: "res (ctx world0) = None"
    by (simp add: world0_def)
  from throwErrors_absent_response
         [where h = short_circuit and w = world0 and v = None and ?w1.0 = world0
            and hs = "[]" and terminal = "Some transport_call"] s r
  show ?thesis by simp
qed

section \<open>The retry middleware\<close>

lemma attempts_trace_Cons:
  "attempts_trace k (e # es) = [Downstream (Inl e), Decide (Suc k) e] @ attempts_trace (Suc k) es"
proof -
  have "[Suc k..<Suc k + length (e # es)] = Suc k # [Suc (Suc k)..<Suc (Suc k) + length es]"
    by (simp add: upt_conv_Cons del: upt_Suc)
  then show ?thesis
    by (simp add: attempts_trace_def del: upt_Suc)
qed

lemma invocations_step:
  "log w2 = log w @ [Downstream r, Decide a e] \<Longrightarrow> invocations w2 = Suc (invocations w)"
  by (simp add: invocations_def)

text \<open>
  The loop entered with the counter at \<open>k < N\<close>, after \<open>k\<close> invocations, makes \<open>N - k\<close>
  more.
\<close>

lemma retry_loop_counts:
  assumes d: "allows N d" and f: "fails_first (N - 1) f"
  shows "k < N \<Longrightarrow> invocations w = k \<Longrightarrow>
         \<exists>es r w'. length es = N - 1 - k \<and>
           retry_loop (logged d) (probe f) k w = Some (r, w') \<and>
           log w' = log w @ attempts_trace k es @ last_trace N r"
proof (induction "N - k" arbitrary: k w)
  case 0
  then show ?case by simp
next
  case (Suc n)
  from f obtain r0 w1 where fw: "f w = Some (r0, w1)" and l1: "log w1 = log w"
    and fl: "invocations w < N - 1 \<longrightarrow> (\<exists>e. r0 = Inl e)"
    unfolding fails_first_def by blast
  show ?case
  proof (cases r0)
    case (Inr v)
    let ?w1 = "w1\<lparr>log := log w1 @ [Downstream (Inr v)]\<rparr>"
    have pw: "probe f w = Some (Inr v, ?w1)"
      by (simp add: probe_def fw Inr)
    from Inr fl Suc.prems have N: "Suc k = N" by auto
    have "retry_loop (logged d) (probe f) k w = Some (Inr v, ?w1)"
      by (subst retry_loop.simps) (simp add: pw)
    then show ?thesis
      using N l1
      by (intro exI [of _ "[]"] exI [of _ "Inr v"] exI [of _ ?w1])
         (simp add: attempts_trace_def last_trace_def)
  next
    case (Inl e)
    let ?w1 = "w1\<lparr>log := log w1 @ [Downstream (Inl e)]\<rparr>"
    have pw: "probe f w = Some (Inl e, ?w1)"
      by (simp add: probe_def fw Inl)
    let ?w1' = "?w1\<lparr>log := log ?w1 @ [Decide (Suc k) e]\<rparr>"
    from d Suc.prems(1) obtain w2 where
      dw: "d (Suc k) e ?w1' = Some (Inr (Suc k < N), w2)" and l2: "log w2 = log ?w1'"
      unfolding allows_def by (metis Suc_leI le_add1 plus_1_eq_Suc)
    have lw: "logged d (Suc k) e ?w1 = Some (Inr (Suc k < N), w2)"
      using dw by (simp add: logged_def)
    have logw2: "log w2 = log w @ [Downstream (Inl e), Decide (Suc k) e]"
      using l2 l1 by simp
    show ?thesis
    proof (cases "Suc k < N")
      case False
      then have N: "Suc k = N" using Suc.prems(1) by simp
      have "retry_loop (logged d) (probe f) k w = Some (Inl e, w2)"
        by (subst retry_loop.simps) (simp add: pw lw False)
      then show ?thesis
        using N logw2
        by (intro exI [of _ "[]"] exI [of _ "Inl e"] exI [of _ w2])
           (simp add: attempts_trace_def last_trace_def)
    next
      case True
      have n: "n = N - Suc k" using Suc.hyps(2) by simp
      have i: "invocations w2 = Suc k"
        using invocations_step [OF logw2] Suc.prems(2) by simp
      from Suc.hyps(1) [OF n True i] obtain es r w' where
        len: "length es = N - 1 - Suc k" and
        run: "retry_loop (logged d) (probe f) (Suc k) w2 = Some (r, w')" and
        lg: "log w' = log w2 @ attempts_trace (Suc k) es @ last_trace N r"
        by blast
      have "retry_loop (logged d) (probe f) k w = Some (r, w')"
        by (subst retry_loop.simps) (simp add: pw lw True run)
      then show ?thesis
        using len lg logw2 True
        by (intro exI [of _ "e # es"] exI [of _ r] exI [of _ w']) (simp add: attempts_trace_Cons)
    qed
  qed
qed

text \<open>
  C2 (retry attempt accounting and failure propagation), as the code has it. For every
  decision function that answers true for the attempts 1..N-1 and false for attempt N,
  and a downstream chain that fails on its first N-1 invocations, retry invokes
  downstream exactly N times: the trace of the run is N-1 failed invocations, each
  followed by the decision on its error, then the Nth invocation. The attempt number
  given to the decision function is 1 after the first failure and one more after each
  further invocation, so the counter is incremented before downstream is invoked. The
  handler settles as the Nth invocation did: when that fails, the decision function is
  asked with attempt N and the error of the Nth invocation is thrown again unchanged.
\<close>

theorem retry_attempts:
  assumes "1 \<le> N" and "allows N d" and "fails_first (N - 1) f" and "invocations w = 0"
  shows "\<exists>es r w'. length es = N - 1 \<and>
           retry (logged d) (probe f) w = Some (r, w') \<and>
           log w' = log w
             @ concat (map (\<lambda>(a, e). [Downstream (Inl e), Decide a e]) (zip [1..<N] es))
             @ (case r of
                  Inl e \<Rightarrow> [Downstream (Inl e), Decide N e]
                | Inr v \<Rightarrow> [Downstream (Inr v)])"
proof -
  from retry_loop_counts [OF assms(2,3), of 0 w] assms(1,4)
  obtain es r w' where len: "length es = N - 1"
    and run: "retry_loop (logged d) (probe f) 0 w = Some (r, w')"
    and lg: "log w' = log w @ attempts_trace 0 es @ last_trace N r"
    by auto
  have "[Suc 0..<Suc 0 + length es] = [1..<N]"
    using len assms(1) by simp
  then have "attempts_trace 0 es
             = concat (map (\<lambda>(a, e). [Downstream (Inl e), Decide a e]) (zip [1..<N] es))"
    by (simp only: attempts_trace_def)
  with len run lg show ?thesis
    by (intro exI [of _ es] exI [of _ r] exI [of _ w']) (simp add: retry_def last_trace_def)
qed

lemma allows_below: "allows N (below N)"
  by (simp add: allows_def below_def)

lemma fails_first_flaky: "fails_first M (flaky M)"
  by (simp add: fails_first_def flaky_def responding_def)

lemma fails_first_failing: "fails_first M (failing e)"
  by (simp add: fails_first_def failing_def)

theorem retry_attempts_witness:
  "(1::nat) \<le> 3 \<and> allows 3 (below 3) \<and> fails_first (3 - 1) (flaky 2) \<and> invocations world0 = 0
   \<and> (\<exists>es r w'. length es = 3 - 1 \<and>
         retry (logged (below 3)) (probe (flaky 2)) world0 = Some (r, w') \<and>
         log w' = log world0
           @ concat (map (\<lambda>(a, e). [Downstream (Inl e), Decide a e]) (zip [1..<3] es))
           @ (case r of
                Inl e \<Rightarrow> [Downstream (Inl e), Decide 3 e]
              | Inr v \<Rightarrow> [Downstream (Inr v)]))"
proof -
  have n: "(1::nat) \<le> 3" by simp
  have f: "fails_first (3 - 1) (flaky 2)"
    using fails_first_flaky [of 2] by simp
  have i: "invocations world0 = 0"
    by (simp add: invocations_def world0_def)
  from retry_attempts [OF n allows_below f i] n allows_below [of 3] f i
  show ?thesis by blast
qed

text \<open>
  The scenario of the specification, evaluated: downstream throws on the attempts 1 and
  2 and answers on attempt 3; it is invoked three times and the call succeeds.
\<close>

lemma retry_third_attempt_succeeds:
  "map_option (\<lambda>(r, w). (r, log w))
     (retry (logged (below 3)) (probe (flaky 2)) world0) =
   Some (Inr (Some response0),
         [Downstream (Inl network_error), Decide 1 network_error,
          Downstream (Inl network_error), Decide 2 network_error,
          Downstream (Inr (Some response0))])"
  unfolding retry_def
  by (subst retry_loop.simps, subst retry_loop.simps, subst retry_loop.simps)
     (simp add: probe_def logged_def below_def flaky_def invocations_def responding_def world0_def)

text \<open>Persistent failure: two invocations, then the error of the second one.\<close>

lemma retry_two_attempts:
  "map_option (\<lambda>(r, w). (r, log w))
     (retry (logged (below 2)) (probe (failing network_error)) world0) =
   Some (Inl network_error,
         [Downstream (Inl network_error), Decide 1 network_error,
          Downstream (Inl network_error), Decide 2 network_error])"
  unfolding retry_def
  by (subst retry_loop.simps, subst retry_loop.simps)
     (simp add: probe_def logged_def below_def failing_def world0_def)

text \<open>
  The claim as stated counts N invocations for every downstream chain. Here the
  decision function allows two retries (N = 3) and downstream answers at once: it is
  invoked once.
\<close>

theorem retry_stops_on_success:
  "allows 3 (below 3)
   \<and> map_option fst (retry (logged (below 3)) (probe (responding response0)) world0)
       = Some (Inr (Some response0))
   \<and> map_option (log \<circ> snd) (retry (logged (below 3)) (probe (responding response0)) world0)
       = Some [Downstream (Inr (Some response0))]"
proof -
  have "retry (logged (below 3)) (probe (responding response0)) world0 =
        Some (Inr (Some response0),
              world0\<lparr>ctx := (ctx world0)\<lparr>res := Some response0\<rparr>,
                     log := [Downstream (Inr (Some response0))]\<rparr>)"
    unfolding retry_def
    by (subst retry_loop.simps) (simp add: probe_def responding_def world0_def)
  with allows_below [of 3] show ?thesis by simp
qed

section \<open>Isolation of invocations\<close>

lemma dispatch_agree:
  assumes "\<forall>h \<in> set hs. stateless h" and "agree t t"
  shows "agree (dispatch (map JSFunction hs) (Some t) 0) (dispatch (map JSFunction hs) (Some t) 0)"
  using assms(1)
proof (induction hs)
  case Nil
  show ?case using assms(2) by (simp add: dispatch_Nil)
next
  case (Cons h hs)
  then show ?case
    by (simp add: dispatch_handler stateless_def)
qed

lemma stateless_urlPrefix: "stateless (urlPrefix p)"
  by (simp add: stateless_def agree_def urlPrefix_def)

lemma stateless_throwErrors: "stateless throwErrors"
  unfolding stateless_def agree_def
proof (intro allI impI)
  fix n n' :: oak_next and w w' :: world
  assume a: "\<forall>w w'. ctx w = ctx w' \<longrightarrow> same_effect (n w) (n' w')" and c: "ctx w = ctx w'"
  then have "same_effect (n w) (n' w')" by simp
  then show "same_effect (throwErrors n w) (throwErrors n' w')"
    by (auto simp: same_effect_def throwErrors_def split: option.splits sum.splits)
qed

lemma agree_responding: "agree (responding r) (responding r)"
  by (simp add: agree_def same_effect_def responding_def)

text \<open>
  C8 (per-invocation isolation). For every sequence of handlers that hold no shared
  mutable state, composing the sequence (once or twice) and invoking the pipelines on
  identical fresh contexts has identical observable effects, whatever else the worlds of
  the two invocations hold, in particular whatever an earlier invocation has left
  behind: each invocation starts its own dispatch at index 0, and nothing of one
  invocation reaches the other. (The continuation given to the pipeline is called by
  dispatch as the last handler, so the same is asked of it. The timeout handler is not
  of this kind: the signal it stores names a controller that is new in each invocation.)
\<close>

theorem invocations_isolated:
  assumes "\<forall>h \<in> set hs. stateless h" and "agree terminal terminal"
    and "compose (JSArray (map JSFunction hs)) = Inr run1"
    and "compose (JSArray (map JSFunction hs)) = Inr run2"
  shows "same_effect (run1 (Some terminal) (w\<lparr>ctx := c\<rparr>)) (run2 (Some terminal) (w'\<lparr>ctx := c\<rparr>))"
  using dispatch_agree [OF assms(1,2)] assms(3,4)
  by (auto simp: compose_functions agree_def)

theorem invocations_isolated_witness:
  "stateless (urlPrefix ''http://host'') \<and> stateless throwErrors
   \<and> agree (responding not_found) (responding not_found)
   \<and> (\<exists>run. compose (JSArray (map JSFunction [urlPrefix ''http://host'', throwErrors])) = Inr run
        \<and> same_effect (run (Some (responding not_found)) (world0\<lparr>ctx := ctx world0\<rparr>))
             (run (Some (responding not_found)) ((mark ''earlier call'' world0)\<lparr>ctx := ctx world0\<rparr>)))"
proof -
  let ?hs = "[urlPrefix ''http://host'', throwErrors]"
  have st: "\<forall>h \<in> set ?hs. stateless h"
    by (simp add: stateless_urlPrefix stateless_throwErrors)
  have c: "compose (JSArray (map JSFunction ?hs)) = Inr (\<lambda>nxt. dispatch (map JSFunction ?hs) nxt 0)"
    by (rule compose_functions)
  from invocations_isolated
         [where w = world0 and c = "ctx world0" and w' = "mark ''earlier call'' world0",
          OF st agree_responding [of not_found] c c]
    c stateless_urlPrefix [of "''http://host''"] stateless_throwErrors agree_responding [of not_found]
  show ?thesis by blast
qed

section \<open>The client\<close>

















end
